theory Spec2Isabelle
  imports Complex_Main "HOL-Library.Word"
begin

unbundle bit_operations_syntax

section \<open>Data model\<close>

text \<open>
  The scripts work on NumPy arrays of fixed-width integers.  A \<^verbatim>\<open>bytes\<close> object and a
  \<^verbatim>\<open>uint8\<close> array are lists of 8-bit words, an \<^verbatim>\<open>int16\<close> array is a list of 16-bit words
  (read as two's complement by \<^const>\<open>sint\<close>), an \<^verbatim>\<open>int32\<close> array a list of 32-bit words.
  Arithmetic on words wraps around exactly as NumPy's fixed-width arithmetic does.
\<close>

type_synonym u8 = "8 word"
type_synonym i16 = "16 word"
type_synonym i32 = "32 word"

text \<open>Python values a caller can hand to a function, and the exceptions raised on them.\<close>

datatype py_value = PyBytes "u8 list" | PyStr string | PyNone

datatype py_error = TypeError | ValueError | KeyError | AttributeError | JSONDecodeError
  | ConnectionClosed | BinasciiError

section \<open>The encoder: \<^verbatim>\<open>linear_to_mulaw\<close> (fake\_call.py)\<close>

subsection \<open>Library primitives used by the encoder\<close>

text \<open>\<^verbatim>\<open>len(x)\<close>: defined on bytes and strings, \<^verbatim>\<open>TypeError\<close> on \<^verbatim>\<open>None\<close>.\<close>

fun py_len :: "py_value \<Rightarrow> py_error + nat" where
  "py_len (PyBytes bs) = Inr (length bs)"
| "py_len (PyStr s) = Inr (length s)"
| "py_len PyNone = Inl TypeError"

text \<open>\<^verbatim>\<open>x[:-1]\<close>: everything but the last element; \<^verbatim>\<open>TypeError\<close> on \<^verbatim>\<open>None\<close>.\<close>

fun py_drop_last :: "py_value \<Rightarrow> py_error + py_value" where
  "py_drop_last (PyBytes bs) = Inr (PyBytes (butlast bs))"
| "py_drop_last (PyStr s) = Inr (PyStr (butlast s))"
| "py_drop_last PyNone = Inl TypeError"

text \<open>
  \<^verbatim>\<open>np.frombuffer(b, dtype=np.int16)\<close> on a bytes object: consecutive byte pairs, low byte
  first (the native byte order of the x86 and ARM hosts the scripts run on).  A buffer
  whose size is not a multiple of the element size raises \<^verbatim>\<open>ValueError\<close>.
\<close>

fun frombuffer_int16 :: "u8 list \<Rightarrow> py_error + i16 list" where
  "frombuffer_int16 [] = Inr []"
| "frombuffer_int16 [b] = Inl ValueError"
| "frombuffer_int16 (lo # hi # bs) =
     (case frombuffer_int16 bs of
        Inl e \<Rightarrow> Inl e
      | Inr xs \<Rightarrow> Inr (word_cat hi lo # xs))"

text \<open>On anything that does not offer the buffer protocol it raises \<^verbatim>\<open>TypeError\<close>.\<close>

fun np_frombuffer_int16 :: "py_value \<Rightarrow> py_error + i16 list" where
  "np_frombuffer_int16 (PyBytes bs) = frombuffer_int16 bs"
| "np_frombuffer_int16 (PyStr s) = Inl TypeError"
| "np_frombuffer_int16 PyNone = Inl TypeError"

text \<open>
  \<^verbatim>\<open>np.abs\<close> on an \<^verbatim>\<open>int16\<close> array stays in \<^verbatim>\<open>int16\<close>: the negation wraps, so the
  absolute value of \<open>-32768\<close> is \<open>-32768\<close>.
\<close>

definition np_abs_i16 :: "i16 \<Rightarrow> i16" where
  "np_abs_i16 x = (if sint x < 0 then - x else x)"

text \<open>\<^verbatim>\<open>astype(np.int32)\<close> of an \<^verbatim>\<open>int16\<close> value: sign extension.\<close>

definition astype_int32 :: "i16 \<Rightarrow> i32" where
  "astype_int32 x = scast x"

text \<open>\<^verbatim>\<open>np.minimum\<close> on \<^verbatim>\<open>int32\<close>: the signed minimum.\<close>

definition np_minimum_i32 :: "i32 \<Rightarrow> i32 \<Rightarrow> i32" where
  "np_minimum_i32 a b = (if sint a \<le> sint b then a else b)"

definition BIAS :: i32 where "BIAS = 0x84"
definition CLIP :: i32 where "CLIP = 32635"

subsection \<open>The array pipeline\<close>

text \<open>
  One pass of the exponent loop, for one value of \<^verbatim>\<open>exp_val\<close>:
  \<^verbatim>\<open>mask = (temp >= (256 << exp_val)) & (exponent == 0); exponent[mask] = exp_val\<close>.
\<close>

definition exponent_pass :: "i32 list \<Rightarrow> i32 list \<Rightarrow> nat \<Rightarrow> i32 list" where
  "exponent_pass temp exponent exp_val =
     map2 (\<lambda>t ex. if sint (push_bit exp_val (256 :: i32)) \<le> sint t \<and> ex = 0
                   then of_nat exp_val else ex) temp exponent"

text \<open>\<^verbatim>\<open>for exp_val in range(7, -1, -1)\<close> over the whole array.\<close>

definition exponent_scan :: "i32 list \<Rightarrow> i32 list" where
  "exponent_scan temp =
     foldl (exponent_pass temp) (replicate (length temp) 0) [7, 6, 5, 4, 3, 2, 1, 0]"

text \<open>
  The body of the encoder after \<^verbatim>\<open>np.frombuffer\<close>: every line of the source is one
  line here.  \<^verbatim>\<open>>>\<close> on \<^verbatim>\<open>int32\<close> is the arithmetic shift.
\<close>

definition mulaw_of_pcm :: "i16 list \<Rightarrow> u8 list" where
  "mulaw_of_pcm pcm =
     (let sign = map (\<lambda>x. sint x < 0) pcm;
          magnitude = map (\<lambda>x. astype_int32 (np_abs_i16 x)) pcm;
          magnitude = map (\<lambda>m. np_minimum_i32 m CLIP) magnitude;
          magnitude = map (\<lambda>m. m + BIAS) magnitude;
          exponent = exponent_scan magnitude;
          mantissa = map2 (\<lambda>m e. signed_drop_bit (unat (e + 3)) m AND 0x0F) magnitude exponent;
          mulaw = map2 (\<lambda>s (e, m). NOT (push_bit 7 (of_bool s) OR push_bit 4 e OR m))
                    sign (zip exponent mantissa);
          mulaw = map (\<lambda>w. w AND 0xFF) mulaw
      in map ucast mulaw)"

text \<open>What the \<^verbatim>\<open>try\<close> block does, with every raise as the left summand.\<close>

definition linear_to_mulaw_try :: "py_value \<Rightarrow> py_error + u8 list" where
  "linear_to_mulaw_try pcm_bytes =
     (case py_len pcm_bytes of
        Inl e \<Rightarrow> Inl e
      | Inr n \<Rightarrow>
          if n = 0 then Inr []
          else
            (case (if n mod 2 \<noteq> 0 then py_drop_last pcm_bytes else Inr pcm_bytes) of
               Inl e \<Rightarrow> Inl e
             | Inr pcm_bytes' \<Rightarrow>
                 (case np_frombuffer_int16 pcm_bytes' of
                    Inl e \<Rightarrow> Inl e
                  | Inr pcm \<Rightarrow> Inr (mulaw_of_pcm pcm))))"

text \<open>
  The console: the only trace of a caught exception is the line printed by the
  \<^verbatim>\<open>except\<close> clause, which carries the exception.
\<close>

datatype console_line = Encode_error py_error

text \<open>
  The whole function: \<^verbatim>\<open>except Exception\<close> turns every raise of the body into the empty
  buffer and one printed line.  The result is a sum so that a raise reaching the caller
  would be visible as \<open>Inl\<close>.  Printing itself is taken not to raise: the script prints
  lines of the same kind from its first statement on.
\<close>

definition linear_to_mulaw_py :: "py_value \<Rightarrow> py_error + (u8 list \<times> console_line list)" where
  "linear_to_mulaw_py pcm_bytes =
     (case linear_to_mulaw_try pcm_bytes of
        Inr out \<Rightarrow> Inr (out, [])
      | Inl e \<Rightarrow> Inr ([], [Encode_error e]))"

text \<open>
  The encoder on a bytes object, as the scripts call it.  The second parameter \<^verbatim>\<open>mu\<close> of
  the source is never read by the body and is left out.
\<close>

definition linear_to_mulaw :: "u8 list \<Rightarrow> u8 list" where
  "linear_to_mulaw bs =
     (case linear_to_mulaw_py (PyBytes bs) of Inr (out, _) \<Rightarrow> out | Inl _ \<Rightarrow> [])"

section \<open>The decoder: \<^verbatim>\<open>mulaw_to_linear_float\<close> (test\_flow.py)\<close>

text \<open>
  Every intermediate array of the decoder is \<^verbatim>\<open>uint8\<close>: the input comes from
  \<^verbatim>\<open>np.frombuffer(..., dtype=np.uint8)\<close> and the Python integer operands do not widen it.
  So \<^verbatim>\<open>((mantissa << 4) + 8) << (exponent + 2)\<close> is computed on 8-bit words; a shift by
  the width or more gives 0.  \<^verbatim>\<open>astype(np.int16)\<close> then zero-extends.
\<close>

definition mulaw_to_linear_int16 :: "u8 list \<Rightarrow> i16 list" where
  "mulaw_to_linear_int16 mulaw_bytes =
     (let mu_law = map (\<lambda>b. b XOR 0xFF) mulaw_bytes;
          sign = map (\<lambda>b. b AND 0x80) mu_law;
          exponent = map (\<lambda>b. drop_bit 4 (b AND 0x70)) mu_law;
          mantissa = map (\<lambda>b. b AND 0x0F) mu_law;
          magnitude = map2 (\<lambda>m e. push_bit (unat (e + 2)) (push_bit 4 m + 8)) mantissa exponent;
          pcm = map (ucast :: u8 \<Rightarrow> i16) magnitude
      in map2 (\<lambda>s p. if s \<noteq> 0 then - p else p) sign pcm)"

text \<open>
  \<^verbatim>\<open>pcm.astype(np.float32) / 32768.0\<close>.  Every \<^verbatim>\<open>int16\<close> value is a \<^verbatim>\<open>float32\<close> exactly and
  division by a power of two only changes the exponent, so the quotient is exact and
  the result is the rational number itself.
\<close>

definition mulaw_to_linear_float :: "u8 list \<Rightarrow> rat list" where
  "mulaw_to_linear_float mulaw_bytes =
     map (\<lambda>p. of_int (sint p) / 32768) (mulaw_to_linear_int16 mulaw_bytes)"


section \<open>The codec, sample by sample\<close>

text \<open>
  Neither direction has cross-sample state, so each array pipeline is a map of a
  function of one element.  These are the element functions the pipelines induce; the
  lemmas \<open>mulaw_of_pcm_map\<close> and \<open>mulaw_to_linear_int16_map\<close> below prove that they are.
\<close>

definition exponent_step :: "i32 \<Rightarrow> i32 \<Rightarrow> nat \<Rightarrow> i32" where
  "exponent_step t ex exp_val =
     (if sint (push_bit exp_val (256 :: i32)) \<le> sint t \<and> ex = 0 then of_nat exp_val else ex)"

definition exponent_of :: "i32 \<Rightarrow> i32" where
  "exponent_of t = foldl (exponent_step t) 0 [7, 6, 5, 4, 3, 2, 1, 0]"

definition biased_magnitude :: "i16 \<Rightarrow> i32" where
  "biased_magnitude x = np_minimum_i32 (astype_int32 (np_abs_i16 x)) CLIP + BIAS"

definition mulaw_sample :: "i16 \<Rightarrow> u8" where
  "mulaw_sample x =
     (let m = biased_magnitude x; e = exponent_of m;
          mant = signed_drop_bit (unat (e + 3)) m AND 0x0F
      in ucast ((NOT (push_bit 7 (of_bool (sint x < 0)) OR push_bit 4 e OR mant)) AND 0xFF))"

definition decode_sample :: "u8 \<Rightarrow> i16" where
  "decode_sample b =
     (let mu = b XOR 0xFF; s = mu AND 0x80; e = drop_bit 4 (mu AND 0x70); m = mu AND 0x0F;
          p = (ucast (push_bit (unat (e + 2)) (push_bit 4 m + 8)) :: i16)
      in if s \<noteq> 0 then - p else p)"

text \<open>The samples of a byte buffer, a trailing odd byte left out.\<close>

fun samples :: "u8 list \<Rightarrow> i16 list" where
  "samples (lo # hi # bs) = word_cat hi lo # samples bs"
| "samples _ = []"

section \<open>The algorithms as the specification words them\<close>

text \<open>
  The specification describes both directions on mathematical integers.  These
  definitions follow its words, to be compared with the code.
\<close>

text \<open>
  Encoder, step 4: thresholds \<open>256 << e\<close> scanned from 7 down to 0, first match wins,
  default 0.
\<close>

definition spec_exponent :: "int \<Rightarrow> nat" where
  "spec_exponent biased =
     (case filter (\<lambda>e. push_bit e 256 \<le> biased) [7, 6, 5, 4, 3, 2, 1, 0] of
        [] \<Rightarrow> 0 | e # _ \<Rightarrow> e)"

text \<open>Encoder, steps 1 to 6, on the integer value of a sample.\<close>

definition spec_encode :: "int \<Rightarrow> int" where
  "spec_encode x =
     (let sign = (if x < 0 then 1 else 0);
          magnitude = min \<bar>x\<bar> 32635;
          biased = magnitude + 132;
          e = spec_exponent biased;
          mantissa = drop_bit (e + 3) biased AND 0x0F
      in NOT (push_bit 7 sign OR push_bit 4 (int e) OR mantissa) AND 0xFF)"

text \<open>Decoder, steps 1 to 5, on the integer value of a code byte.\<close>

definition spec_decode_int :: "int \<Rightarrow> int" where
  "spec_decode_int b =
     (let mu = b XOR 0xFF;
          sign = drop_bit 7 mu AND 1;
          exponent = drop_bit 4 mu AND 7;
          mantissa = mu AND 0x0F;
          magnitude = push_bit (nat (exponent + 2)) (push_bit 4 mantissa + 8)
      in if sign \<noteq> 0 then - magnitude else magnitude)"

definition spec_decode :: "int \<Rightarrow> rat" where
  "spec_decode b = of_int (spec_decode_int b) / 32768"

section \<open>JSON values and text frames\<close>

text \<open>
  What \<^verbatim>\<open>json.loads\<close> returns and \<^verbatim>\<open>json.dumps\<close> accepts.  A Python \<^verbatim>\<open>dict\<close> is
  the list of its items in insertion order; its keys are pairwise distinct.
\<close>

datatype json = JNull | JBool bool | JNum int | JStr string | JArr "json list"
  | JObj "(string \<times> json) list"

text \<open>
  A text frame on the WebSocket.  The JSON library is not part of the repository, so a
  frame is represented by what \<^verbatim>\<open>json.loads\<close> makes of it: either the text of a JSON
  value, written as that value, or text that \<^verbatim>\<open>json.loads\<close> rejects.  \<^verbatim>\<open>json.dumps\<close>
  of a value is a text that parses back to the value.
\<close>

datatype frame = Json_text json | Not_json string

definition json_dumps :: "json \<Rightarrow> frame" where
  "json_dumps v = Json_text v"

fun json_loads :: "frame \<Rightarrow> py_error + json" where
  "json_loads (Json_text v) = Inr v"
| "json_loads (Not_json s) = Inl JSONDecodeError"

text \<open>\<^verbatim>\<open>obj.get(key, default)\<close>: only a \<^verbatim>\<open>dict\<close> has the method.\<close>

fun py_get_default :: "json \<Rightarrow> string \<Rightarrow> json \<Rightarrow> py_error + json" where
  "py_get_default (JObj kvs) k d = Inr (case map_of kvs k of None \<Rightarrow> d | Some v \<Rightarrow> v)"
| "py_get_default _ k d = Inl AttributeError"

text \<open>\<^verbatim>\<open>obj.get(key)\<close>: the default is \<^verbatim>\<open>None\<close>.\<close>

definition py_get :: "json \<Rightarrow> string \<Rightarrow> py_error + json" where
  "py_get obj k = py_get_default obj k JNull"

text \<open>
  \<^verbatim>\<open>key in obj\<close> for a \<^verbatim>\<open>dict\<close>.  The scripts evaluate it only after \<^verbatim>\<open>obj.get\<close> has
  succeeded, that is on a \<^verbatim>\<open>dict\<close>.
\<close>

fun py_in :: "string \<Rightarrow> json \<Rightarrow> bool" where
  "py_in k (JObj kvs) = (map_of kvs k \<noteq> None)"
| "py_in k _ = False"

text \<open>
  \<^verbatim>\<open>obj[key]\<close> with a string key: \<^verbatim>\<open>KeyError\<close> on a \<^verbatim>\<open>dict\<close> without the key,
  \<^verbatim>\<open>TypeError\<close> on every other value.
\<close>

fun py_getitem :: "json \<Rightarrow> string \<Rightarrow> py_error + json" where
  "py_getitem (JObj kvs) k = (case map_of kvs k of None \<Rightarrow> Inl KeyError | Some v \<Rightarrow> Inr v)"
| "py_getitem _ k = Inl TypeError"

text \<open>\<^verbatim>\<open>len(v)\<close>: defined on strings, lists and dicts.\<close>

fun py_len_json :: "json \<Rightarrow> py_error + nat" where
  "py_len_json (JStr s) = Inr (length s)"
| "py_len_json (JArr xs) = Inr (length xs)"
| "py_len_json (JObj kvs) = Inr (length kvs)"
| "py_len_json _ = Inl TypeError"

text \<open>The truth value of \<^verbatim>\<open>if v:\<close>.\<close>

fun py_truthy :: "json \<Rightarrow> bool" where
  "py_truthy JNull = False"
| "py_truthy (JBool b) = b"
| "py_truthy (JNum n) = (n \<noteq> 0)"
| "py_truthy (JStr s) = (s \<noteq> [])"
| "py_truthy (JArr xs) = (xs \<noteq> [])"
| "py_truthy (JObj kvs) = (kvs \<noteq> [])"

text \<open>\<^verbatim>\<open>str(n)\<close> of a natural number: its decimal digits.\<close>

fun digit_char :: "nat \<Rightarrow> char" where
  "digit_char n = char_of (48 + n)"

function py_str :: "nat \<Rightarrow> string" where
  "py_str n = (if n < 10 then [digit_char n] else py_str (n div 10) @ [digit_char (n mod 10)])"
  by pat_completeness auto
termination
  by (relation "measure id") auto

declare py_str.simps [simp del]

section \<open>Base64\<close>

text \<open>
  \<^verbatim>\<open>base64.b64encode\<close> and \<^verbatim>\<open>base64.b64decode\<close> belong to the Python library, not to
  the repository.  They are modelled from RFC 4648 and from CPython's
  \<^verbatim>\<open>binascii.a2b_base64\<close> in its default, non-strict mode.
\<close>

definition b64_alphabet :: string where
  "b64_alphabet = ''ABCDEFGHIJKLMNOPQRSTUVWXYZabcdefghijklmnopqrstuvwxyz0123456789+/''"

text \<open>
  The character of a six-bit value.  The encoder only asks for values below 64 (lemma
  \<open>sextets\<close> below).
\<close>

definition b64_char :: "u8 \<Rightarrow> char" where
  "b64_char v = b64_alphabet ! unat v"

text \<open>Three bytes become four characters; a rest of one or two bytes is padded.\<close>

fun b64encode :: "u8 list \<Rightarrow> string" where
  "b64encode [] = []"
| "b64encode [a] =
     [b64_char (drop_bit 2 a), b64_char (push_bit 4 (a AND 3)), CHR ''='', CHR ''='']"
| "b64encode [a, b] =
     [b64_char (drop_bit 2 a), b64_char (push_bit 4 (a AND 3) OR drop_bit 4 b),
      b64_char (push_bit 2 (b AND 15)), CHR ''='']"
| "b64encode (a # b # c # bs) =
     [b64_char (drop_bit 2 a), b64_char (push_bit 4 (a AND 3) OR drop_bit 4 b),
      b64_char (push_bit 2 (b AND 15) OR drop_bit 6 c), b64_char (c AND 63)] @ b64encode bs"

text \<open>The position of the first occurrence of an element.\<close>

fun index_of :: "'a list \<Rightarrow> 'a \<Rightarrow> nat option" where
  "index_of [] x = None"
| "index_of (y # ys) x = (if x = y then Some 0 else map_option Suc (index_of ys x))"

text \<open>The decoding table: the value of an alphabet character, nothing for any other.\<close>

definition b64_value :: "char \<Rightarrow> u8 option" where
  "b64_value c = map_option of_nat (index_of b64_alphabet c)"

text \<open>
  The decoder's loop over the characters, with its state: the position in the current
  group of four, the bits left over from the previous character, the length of the
  current run of pad characters, and the bytes written so far.  Characters outside the
  alphabet are skipped; a pad that completes a group ends the input.
\<close>

fun a2b_loop :: "string \<Rightarrow> nat \<Rightarrow> u8 \<Rightarrow> nat \<Rightarrow> u8 list \<Rightarrow> py_error + u8 list" where
  "a2b_loop [] quad_pos leftchar pads out =
     (if quad_pos \<noteq> 0 then Inl BinasciiError else Inr out)"
| "a2b_loop (c # cs) quad_pos leftchar pads out =
     (if c = CHR ''='' then
        (if 2 \<le> quad_pos \<and> 4 \<le> quad_pos + (pads + 1) then Inr out
         else a2b_loop cs quad_pos leftchar (if 2 \<le> quad_pos then pads + 1 else pads) out)
      else
        (case b64_value c of
           None \<Rightarrow> a2b_loop cs quad_pos leftchar pads out
         | Some this_ch \<Rightarrow>
             if quad_pos = 0 then a2b_loop cs 1 this_ch 0 out
             else if quad_pos = 1 then
               a2b_loop cs 2 (this_ch AND 0x0F) 0
                 (out @ [push_bit 2 leftchar OR drop_bit 4 this_ch])
             else if quad_pos = 2 then
               a2b_loop cs 3 (this_ch AND 0x03) 0
                 (out @ [push_bit 4 leftchar OR drop_bit 2 this_ch])
             else
               a2b_loop cs 0 0 0 (out @ [push_bit 6 leftchar OR this_ch])))"

definition a2b_base64 :: "string \<Rightarrow> py_error + u8 list" where
  "a2b_base64 s = a2b_loop s 0 0 0 []"

text \<open>
  \<^verbatim>\<open>base64.b64decode(v)\<close> on a parsed JSON value: a string must be ASCII
  (\<^verbatim>\<open>ValueError\<close> otherwise), anything that is no string raises \<^verbatim>\<open>TypeError\<close>.
\<close>

fun b64decode :: "json \<Rightarrow> py_error + u8 list" where
  "b64decode (JStr s) =
     (if \<exists>c \<in> set s. (128 :: nat) \<le> of_char c then Inl ValueError else a2b_base64 s)"
| "b64decode _ = Inl TypeError"


section \<open>The envelopes the scripts send\<close>

subsection \<open>fake\_call.py\<close>

text \<open>
  The module constants.  \<^verbatim>\<open>CALL_SID\<close> is built from the clock once, when the module is
  loaded; the clock reading is its parameter.
\<close>

definition CALL_SID :: "nat \<Rightarrow> string" where
  "CALL_SID now = ''SIM_TEST_'' @ py_str now"

definition STREAM_SID :: string where "STREAM_SID = ''SIM_STREAM_001''"
definition FROM_NUMBER :: string where "FROM_NUMBER = ''+1234567890''"
definition TO_NUMBER :: string where "TO_NUMBER = ''+13614507995''"
definition TEST_EMAIL :: string where "TEST_EMAIL = ''customer@example.com''"

text \<open>
  The three dictionaries handed to \<^verbatim>\<open>json.dumps\<close>, with the identifiers they read from
  the module constants as arguments.
\<close>

definition fake_call_start :: "string \<Rightarrow> string \<Rightarrow> string \<Rightarrow> string \<Rightarrow> string \<Rightarrow> json" where
  "fake_call_start call_sid stream_sid from_number to_number test_email =
     JObj [(''event'', JStr ''start''),
           (''start'', JObj [(''callSid'', JStr call_sid),
                             (''streamSid'', JStr stream_sid),
                             (''from'', JStr from_number),
                             (''to'', JStr to_number),
                             (''customParameters'', JObj [(''caller_email'', JStr test_email)])])]"

definition fake_call_media :: "string \<Rightarrow> u8 list \<Rightarrow> json" where
  "fake_call_media stream_sid chunk =
     JObj [(''event'', JStr ''media''),
           (''streamSid'', JStr stream_sid),
           (''media'', JObj [(''payload'', JStr (b64encode chunk))])]"

definition fake_call_stop :: "string \<Rightarrow> json" where
  "fake_call_stop call_sid =
     JObj [(''event'', JStr ''stop''),
           (''stop'', JObj [(''callSid'', JStr call_sid)])]"

text \<open>
  \<^verbatim>\<open>for j in range(0, len(audio), chunk_size): chunk = audio[j:j+chunk_size]\<close>, for a
  positive chunk size.
\<close>

function chunks :: "nat \<Rightarrow> u8 list \<Rightarrow> u8 list list" where
  "chunks chunk_size audio =
     (if chunk_size = 0 \<or> audio = [] then []
      else take chunk_size audio # chunks chunk_size (drop chunk_size audio))"
  by pat_completeness auto
termination
  by (relation "measure (\<lambda>(n, audio). length audio)") auto

declare chunks.simps [simp del]

text \<open>
  Everything one run of the script sends: the start envelope, one media envelope per
  640-byte chunk of each encoded utterance, the stop envelope.
\<close>

definition fake_call_sent :: "nat \<Rightarrow> u8 list list \<Rightarrow> frame list" where
  "fake_call_sent now utterances =
     [json_dumps (fake_call_start (CALL_SID now) STREAM_SID FROM_NUMBER TO_NUMBER TEST_EMAIL)]
     @ concat (map (\<lambda>pcm_audio. map (\<lambda>chunk. json_dumps (fake_call_media STREAM_SID chunk))
                                   (chunks 640 (linear_to_mulaw pcm_audio))) utterances)
     @ [json_dumps (fake_call_stop (CALL_SID now))]"

text \<open>
  The envelope as the data model has it: an event kind, a stream identifier, and a
  payload for media events only.  The script serialises each kind at its own
  \<^verbatim>\<open>ws.send\<close>; the call identifier and the session metadata come from the constants.
\<close>

datatype envelope = Start string | Media string "u8 list" | Stop string

fun fake_call_serialize :: "nat \<Rightarrow> envelope \<Rightarrow> frame" where
  "fake_call_serialize now (Start stream_sid) =
     json_dumps (fake_call_start (CALL_SID now) stream_sid FROM_NUMBER TO_NUMBER TEST_EMAIL)"
| "fake_call_serialize now (Media stream_sid chunk) =
     json_dumps (fake_call_media stream_sid chunk)"
| "fake_call_serialize now (Stop stream_sid) =
     json_dumps (fake_call_stop (CALL_SID now))"

subsection \<open>test\_flow.py\<close>

definition test_flow_start :: json where
  "test_flow_start =
     JObj [(''event'', JStr ''start''),
           (''start'', JObj [(''callSid'', JStr ''TESTCALL123''),
                             (''streamSid'', JStr ''STREAM123''),
                             (''from'', JStr ''+1234567890''),
                             (''to'', JStr ''+13614507995''),
                             (''customParameters'',
                                JObj [(''caller_email'', JStr ''test@example.com'')])])]"

subsection \<open>test\_ai.py\<close>

text \<open>
  The start message reads the clock three times (inner stream identifier, call
  identifier, outer stream identifier); the media message carries the chunk number and a
  millisecond timestamp; media and stop messages copy the identifiers of the start
  message.
\<close>

definition test_ai_start :: "nat \<Rightarrow> nat \<Rightarrow> nat \<Rightarrow> json" where
  "test_ai_start t1 t2 t3 =
     JObj [(''event'', JStr ''start''),
           (''sequenceNumber'', JStr ''1''),
           (''start'', JObj [(''streamSid'', JStr (''TEST_STREAM_'' @ py_str t1)),
                             (''accountSid'', JStr ''TEST_ACCOUNT''),
                             (''callSid'', JStr (''TEST_CALL_'' @ py_str t2)),
                             (''tracks'', JArr [JStr ''inbound'']),
                             (''mediaFormat'', JObj [(''encoding'', JStr ''audio/x-mulaw''),
                                                     (''sampleRate'', JNum 8000),
                                                     (''channels'', JNum 1)]),
                             (''customParameters'',
                                JObj [(''From'', JStr ''+1234567890''),
                                      (''To'', JStr ''+0987654321''),
                                      (''caller_email'', JStr ''test@artbymaudsch.com'')])]),
           (''streamSid'', JStr (''TEST_STREAM_'' @ py_str t3))]"

definition test_ai_media :: "nat \<Rightarrow> nat \<Rightarrow> nat \<Rightarrow> u8 list \<Rightarrow> json" where
  "test_ai_media t3 i millis chunk =
     JObj [(''event'', JStr ''media''),
           (''sequenceNumber'', JStr (py_str (i + 10))),
           (''media'', JObj [(''track'', JStr ''inbound''),
                             (''chunk'', JStr (py_str i)),
                             (''timestamp'', JStr (py_str millis)),
                             (''payload'', JStr (b64encode chunk))]),
           (''streamSid'', JStr (''TEST_STREAM_'' @ py_str t3))]"

definition test_ai_stop :: "nat \<Rightarrow> nat \<Rightarrow> json" where
  "test_ai_stop t2 t3 =
     JObj [(''event'', JStr ''stop''),
           (''sequenceNumber'', JStr ''9999''),
           (''stop'', JObj [(''accountSid'', JStr ''TEST_ACCOUNT''),
                            (''callSid'', JStr (''TEST_CALL_'' @ py_str t2))]),
           (''streamSid'', JStr (''TEST_STREAM_'' @ py_str t3))]"

section \<open>The receive loops\<close>

subsection \<open>\<^verbatim>\<open>listen\<close> (fake\_call.py)\<close>

datatype listener_line = AI_response nat nat | Listener_closed | Listener_error py_error

text \<open>
  The \<^verbatim>\<open>while True\<close> loop inside the \<^verbatim>\<open>try\<close>.  The frames still to arrive are a list;
  when it is used up the connection is closed and \<^verbatim>\<open>ws.recv\<close> raises.  The loop never
  ends normally: the result is the exception that left it, with the counter and the
  lines printed up to then.  The counter is incremented before the payload is read.
\<close>

fun listen_loop :: "frame list \<Rightarrow> nat \<Rightarrow> listener_line list
    \<Rightarrow> py_error \<times> nat \<times> listener_line list" where
  "listen_loop [] ai_response_count out = (ConnectionClosed, ai_response_count, out)"
| "listen_loop (data # rest) ai_response_count out =
     (case json_loads data of
        Inl e \<Rightarrow> (e, ai_response_count, out)
      | Inr obj \<Rightarrow>
          (case py_get obj ''event'' of
             Inl e \<Rightarrow> (e, ai_response_count, out)
           | Inr ev \<Rightarrow>
               if ev = JStr ''media'' \<and> py_in ''media'' obj then
                 (case py_getitem obj ''media'' of
                    Inl e \<Rightarrow> (e, ai_response_count + 1, out)
                  | Inr m \<Rightarrow>
                      (case py_getitem m ''payload'' of
                         Inl e \<Rightarrow> (e, ai_response_count + 1, out)
                       | Inr payload \<Rightarrow>
                           (case py_len_json payload of
                              Inl e \<Rightarrow> (e, ai_response_count + 1, out)
                            | Inr payload_len \<Rightarrow>
                                listen_loop rest (ai_response_count + 1)
                                  (out @ [AI_response (ai_response_count + 1) payload_len]))))
               else listen_loop rest ai_response_count out))"

text \<open>
  The coroutine: both \<^verbatim>\<open>except\<close> clauses are outside the loop, print one line and let
  the coroutine return.  The result is the final counter and everything printed.
\<close>

definition listen :: "frame list \<Rightarrow> nat \<times> listener_line list" where
  "listen inbox =
     (case listen_loop inbox 0 [] of
        (e, ai_response_count, out) \<Rightarrow>
          (ai_response_count,
           out @ [if e = ConnectionClosed then Listener_closed else Listener_error e]))"

subsection \<open>The receiving side of test\_flow.py\<close>

text \<open>
  What the loop body does with one received message, up to the decoded audio bytes:
  \<open>None\<close> when the message is skipped, the bytes when it carries audio.
\<close>

definition test_flow_receive :: "frame \<Rightarrow> py_error + u8 list option" where
  "test_flow_receive message =
     (case json_loads message of
        Inl e \<Rightarrow> Inl e
      | Inr data \<Rightarrow>
          (case py_get data ''event'' of
             Inl e \<Rightarrow> Inl e
           | Inr ev \<Rightarrow>
               if ev = JStr ''media'' then
                 (case py_get_default data ''media'' (JObj []) of
                    Inl e \<Rightarrow> Inl e
                  | Inr m \<Rightarrow>
                      (case py_get m ''payload'' of
                         Inl e \<Rightarrow> Inl e
                       | Inr payload \<Rightarrow>
                           if py_truthy payload then
                             (case b64decode payload of
                                Inl e \<Rightarrow> Inl e
                              | Inr audio_bytes \<Rightarrow> Inr (Some audio_bytes))
                           else Inr None))
               else Inr None))"

section \<open>The wire schema as the specification words it\<close>

text \<open>A field of a JSON object; nothing for a missing field or a value that is no object.\<close>

fun field :: "json \<Rightarrow> string \<Rightarrow> json option" where
  "field (JObj kvs) k = map_of kvs k"
| "field _ k = None"

fun is_string :: "json option \<Rightarrow> bool" where
  "is_string (Some (JStr s)) = True"
| "is_string _ = False"

text \<open>A map with string keys: every JSON object is one.\<close>

fun is_string_keyed_map :: "json option \<Rightarrow> bool" where
  "is_string_keyed_map (Some (JObj kvs)) = True"
| "is_string_keyed_map _ = False"

text \<open>Base64 text of some bytes: it decodes, and the decoded bytes encode to it.\<close>

fun is_base64_text :: "json option \<Rightarrow> bool" where
  "is_base64_text (Some (JStr s)) =
     (case a2b_base64 s of Inl e \<Rightarrow> False | Inr bs \<Rightarrow> b64encode bs = s)"
| "is_base64_text _ = False"

text \<open>
  The external interface: the event is one of three; a media envelope has a
  \<open>streamSid\<close> string and base64 text at \<open>media.payload\<close>; a start envelope has a \<open>start\<close>
  object with \<open>callSid\<close>, \<open>streamSid\<close>, \<open>from\<close>, \<open>to\<close> and a \<open>customParameters\<close> map; a stop
  envelope has a \<open>stop\<close> object with \<open>callSid\<close>.
\<close>

definition conforms :: "json \<Rightarrow> bool" where
  "conforms env =
     (if field env ''event'' = Some (JStr ''media'') then
        is_string (field env ''streamSid'') \<and>
        (case field env ''media'' of
           None \<Rightarrow> False | Some m \<Rightarrow> is_base64_text (field m ''payload''))
      else if field env ''event'' = Some (JStr ''start'') then
        (case field env ''start'' of
           None \<Rightarrow> False
         | Some s \<Rightarrow> is_string (field s ''callSid'') \<and> is_string (field s ''streamSid'') \<and>
                     is_string (field s ''from'') \<and> is_string (field s ''to'') \<and>
                     is_string_keyed_map (field s ''customParameters''))
      else if field env ''event'' = Some (JStr ''stop'') then
        (case field env ''stop'' of
           None \<Rightarrow> False | Some s \<Rightarrow> is_string (field s ''callSid''))
      else False)"

text \<open>The same for a frame: it must be the text of a conforming JSON value.\<close>

fun frame_conforms :: "frame \<Rightarrow> bool" where
  "frame_conforms (Json_text v) = conforms v"
| "frame_conforms (Not_json s) = False"

section \<open>Auxiliary notions for the proofs\<close>

text \<open>A six-bit value, the index of a character of the Base64 alphabet.\<close>

definition sextet :: "u8 \<Rightarrow> bool" where
  "sextet v \<longleftrightarrow> unat v < 64"

section \<open>Properties of the codec\<close>

subsection \<open>The pipelines are maps\<close>

lemma map2_map2_left:
  "map2 f xs (map2 g xs ys) = map2 (\<lambda>x y. f x (g x y)) xs ys"
proof (induction xs arbitrary: ys)
  case Nil
  then show ?case by simp
next
  case (Cons x xs)
  then show ?case by (cases ys) simp_all
qed

lemma map2_same: "map2 f xs xs = map (\<lambda>x. f x x) xs"
  by (induction xs) simp_all

lemma replicate_as_map2: "replicate (length xs) c = map2 (\<lambda>x y. c) xs xs"
  by (induction xs) simp_all

lemma exponent_pass_step:
  "exponent_pass temp exs e = map2 (\<lambda>t ex. exponent_step t ex e) temp exs"
  by (simp add: exponent_pass_def exponent_step_def)

lemma foldl_exponent_pass:
  "foldl (exponent_pass temp) (map2 g temp ys) es =
     map2 (\<lambda>t y. foldl (exponent_step t) (g t y) es) temp ys"
  by (induction es arbitrary: g) (simp_all add: exponent_pass_step map2_map2_left)

lemma exponent_scan_map: "exponent_scan temp = map exponent_of temp"
  unfolding exponent_scan_def
  apply (subst replicate_as_map2)
  apply (subst foldl_exponent_pass)
  apply (simp add: map2_same exponent_of_def)
  done

lemma mulaw_of_pcm_map: "mulaw_of_pcm pcm = map mulaw_sample pcm"
  unfolding mulaw_of_pcm_def exponent_scan_map Let_def
  by (induction pcm) (simp_all add: mulaw_sample_def biased_magnitude_def Let_def)

lemma mulaw_to_linear_int16_map: "mulaw_to_linear_int16 bs = map decode_sample bs"
  unfolding mulaw_to_linear_int16_def Let_def
  by (induction bs) (simp_all add: decode_sample_def Let_def)

subsection \<open>Reading the buffer\<close>

lemma frombuffer_int16_even:
  "even (length bs) \<Longrightarrow> frombuffer_int16 bs = Inr (samples bs)"
  by (induction bs rule: frombuffer_int16.induct) simp_all

lemma samples_butlast_odd:
  "odd (length bs) \<Longrightarrow> samples (butlast bs) = samples bs"
proof (induction bs rule: frombuffer_int16.induct)
  case (3 lo hi bs)
  then have "bs \<noteq> []" by auto
  with 3 show ?case by simp
qed simp_all

lemma linear_to_mulaw_try_bytes:
  "linear_to_mulaw_try (PyBytes bs) = Inr (map mulaw_sample (samples bs))"
proof (cases "bs = []")
  case True
  then show ?thesis by (simp add: linear_to_mulaw_try_def)
next
  case False
  show ?thesis
  proof (cases "even (length bs)")
    case True
    with False show ?thesis
      by (simp add: linear_to_mulaw_try_def frombuffer_int16_even mulaw_of_pcm_map)
  next
    case False
    then have "even (length (butlast bs))" by simp
    with False \<open>bs \<noteq> []\<close> show ?thesis
      by (simp add: linear_to_mulaw_try_def frombuffer_int16_even mulaw_of_pcm_map
          samples_butlast_odd odd_iff_mod_2_eq_one)
  qed
qed

lemma linear_to_mulaw_samples: "linear_to_mulaw bs = map mulaw_sample (samples bs)"
  by (simp add: linear_to_mulaw_def linear_to_mulaw_py_def linear_to_mulaw_try_bytes)

lemma samples_take_even:
  "length bs = 2 * k + 1 \<Longrightarrow> samples (take (2 * k) bs) = samples bs"
proof -
  assume l: "length bs = 2 * k + 1"
  then have "take (2 * k) bs = butlast bs" by (simp add: butlast_conv_take)
  moreover from l have "odd (length bs)" by simp
  ultimately show ?thesis by (simp add: samples_butlast_odd)
qed

subsection \<open>Ranges\<close>

lemma numeral_masks:
  "(0xFF :: i32) = mask 8" "(0xFF :: u8) = mask 8" "(0x70 :: u8) = push_bit 4 (mask 3)"
  "(0x0F :: u8) = mask 4" "(0x0F :: i32) = mask 4" "(0x80 :: u8) = push_bit 7 1"
  "(7 :: u8) = mask 3"
  by (simp_all add: mask_eq_exp_minus_1)

lemma sint_i16_range: "- 32768 \<le> sint (x :: i16)" "sint (x :: i16) \<le> 32767"
  using sint_ge [of x] sint_lt [of x] by simp_all

lemma sint_np_abs_i16:
  "sint (np_abs_i16 x) = (if sint x = - 32768 then - 32768 else \<bar>sint x\<bar>)"
proof (cases "sint x < 0")
  case True
  have "sint (- x) = signed_take_bit 15 (- sint x)"
    by (simp add: sint_word_ariths)
  also have "\<dots> = (if sint x = - 32768 then - 32768 else - sint x)"
  proof (cases "sint x = - 32768")
    case True
    then show ?thesis by simp
  next
    case False
    with sint_i16_range [of x] have "- 32768 \<le> - sint x" "- sint x < 32768" by simp_all
    then have "signed_take_bit 15 (- sint x) = - sint x"
      by (simp add: signed_take_bit_int_eq_self)
    with False show ?thesis by simp
  qed
  finally show ?thesis using True by (simp add: np_abs_i16_def)
next
  case False
  then show ?thesis using sint_i16_range [of x] by (simp add: np_abs_i16_def)
qed

lemma sint_astype_int32: "sint (astype_int32 y) = sint y"
  by (simp add: astype_int32_def sint_up_scast is_up)

lemma sint_clipped:
  "sint (np_minimum_i32 (astype_int32 (np_abs_i16 x)) CLIP) = min (sint (np_abs_i16 x)) 32635"
  by (simp add: np_minimum_i32_def CLIP_def sint_astype_int32 min_def)

lemma sint_biased_magnitude:
  "sint (biased_magnitude x) = min (sint (np_abs_i16 x)) 32635 + 132"
proof -
  let ?c = "np_minimum_i32 (astype_int32 (np_abs_i16 x)) CLIP"
  have r: "- 32768 \<le> sint ?c" "sint ?c \<le> 32635"
    using sint_i16_range [of "np_abs_i16 x"] by (simp_all add: sint_clipped)
  have "sint (?c + BIAS) = signed_take_bit 31 (sint ?c + 132)"
    by (simp add: sint_word_ariths BIAS_def)
  also have "\<dots> = sint ?c + 132"
    using r by (simp add: signed_take_bit_int_eq_self)
  finally show ?thesis by (simp add: biased_magnitude_def sint_clipped)
qed

lemma biased_magnitude_le: "sint (biased_magnitude x) \<le> 32767"
  by (simp add: sint_biased_magnitude)

lemma exponent_of_range:
  "sint t \<le> 32767 \<Longrightarrow> exponent_of t \<in> {0, 1, 2, 3, 4, 5, 6}"
  by (simp add: exponent_of_def exponent_step_def)

subsection \<open>The fields of an emitted byte\<close>

lemma uncomplement:
  fixes w :: i32
  shows "(ucast (NOT w AND 0xFF) :: u8) XOR 0xFF = ucast w"
  unfolding numeral_masks
  by (rule bit_word_eqI) (auto simp add: bit_simps)

lemma ucast_fields:
  fixes e y :: i32
  shows "(ucast (push_bit 7 (of_bool s) OR push_bit 4 e OR (y AND 0x0F)) :: u8)
          = push_bit 7 (of_bool s) OR push_bit 4 (ucast e) OR (ucast y AND 0x0F)"
  unfolding numeral_masks
  by (rule bit_word_eqI) (auto simp add: bit_simps)

lemma exponent_field:
  fixes e y :: u8
  shows "drop_bit 4 ((push_bit 7 (of_bool s) OR push_bit 4 e OR (y AND 0x0F)) AND 0x70) = e AND 7"
  unfolding numeral_masks
  by (rule bit_word_eqI) (auto simp add: bit_simps)

lemma exponent_field_mulaw_sample:
  "drop_bit 4 ((mulaw_sample x XOR 0xFF) AND 0x70) = ucast (exponent_of (biased_magnitude x)) AND 7"
  by (simp only: mulaw_sample_def Let_def uncomplement ucast_fields exponent_field)

lemma exponent_field_le_6: "drop_bit 4 ((mulaw_sample x XOR 0xFF) AND 0x70) \<le> 6"
proof -
  have "exponent_of (biased_magnitude x) \<in> {0, 1, 2, 3, 4, 5, 6}"
    by (rule exponent_of_range) (rule biased_magnitude_le)
  then show ?thesis
    unfolding exponent_field_mulaw_sample by auto
qed

subsection \<open>The decoder's range\<close>

lemma uint_u8_range: "0 \<le> uint (m :: u8)" "uint (m :: u8) \<le> 255"
  using uint_lt2p [of m] by simp_all

lemma signed_take_bit_15_small:
  "- 255 \<le> k \<Longrightarrow> k \<le> 255 \<Longrightarrow> signed_take_bit 15 k = (k :: int)"
  by (rule signed_take_bit_int_eq_self) simp_all

lemma sint_ucast_u8:
  fixes m :: u8
  shows "sint (ucast m :: i16) = uint m"
proof -
  have "uint (ucast m :: i16) = uint m"
    using uint_u8_range [of m] by (simp add: unsigned_ucast_eq take_bit_int_eq_self)
  then have "sint (ucast m :: i16) = signed_take_bit 15 (uint m)"
    by (simp add: sint_uint)
  also have "\<dots> = uint m"
    using uint_u8_range [of m] by (intro signed_take_bit_15_small) linarith+
  finally show ?thesis .
qed

lemma sint_neg_ucast_u8:
  fixes m :: u8
  shows "sint (- (ucast m :: i16)) = - uint m"
proof -
  have "sint (- (ucast m :: i16)) = signed_take_bit 15 (- uint m)"
    by (simp add: sint_word_ariths sint_ucast_u8)
  also have "\<dots> = - uint m"
    using uint_u8_range [of m] by (intro signed_take_bit_15_small) linarith+
  finally show ?thesis .
qed

lemma signed_small_range:
  "0 \<le> k \<Longrightarrow> k \<le> 255 \<Longrightarrow>
     - 255 \<le> (if c then - k else k) \<and> (if c then - k else k) \<le> (255 :: int)"
  by (cases c) simp_all

lemma sint_signed_ucast_u8:
  fixes m :: u8
  shows "sint (if c then - (ucast m :: i16) else ucast m) = (if c then - uint m else uint m)"
  by (simp add: sint_ucast_u8 sint_neg_ucast_u8)

lemma sint_signed_ucast_u8_range:
  fixes m :: u8
  shows "- 255 \<le> sint (if c then - (ucast m :: i16) else ucast m)
       \<and> sint (if c then - (ucast m :: i16) else ucast m) \<le> 255"
  unfolding sint_signed_ucast_u8
  by (rule signed_small_range) (rule uint_u8_range)+

lemma decode_sample_range: "- 255 \<le> sint (decode_sample b) \<and> sint (decode_sample b) \<le> 255"
  unfolding decode_sample_def Let_def by (rule sint_signed_ucast_u8_range)

subsection \<open>The encoder against the specification's algorithm\<close>

text \<open>
  Away from the sample \<open>-32768\<close> the encoder computes, on every sample, the byte of the
  algorithm as the specification words it.
\<close>

lemma exponent_of_spec:
  "sint m \<le> 32767 \<Longrightarrow> exponent_of m = of_nat (spec_exponent (sint m))"
  by (simp add: exponent_of_def exponent_step_def spec_exponent_def)

lemma spec_exponent_le: "b \<le> 32767 \<Longrightarrow> spec_exponent b \<le> 6"
  by (simp add: spec_exponent_def)

lemma unat_exponent_plus_3:
  "n \<le> 6 \<Longrightarrow> unat (of_nat n + 3 :: i32) = n + 3"
  by (simp add: unat_word_ariths unat_of_nat)

lemma word_of_int_sint_i32: "word_of_int (sint w) = (w :: i32)"
  by simp

lemma signed_drop_bit_of_int:
  "signed_drop_bit n (m :: i32) = word_of_int (drop_bit n (sint m))"
  using word_of_int_sint_i32 [of "signed_drop_bit n m"]
  by (simp only: sint_signed_drop_bit_eq)

lemma ucast_of_int_i32_u8: "(ucast (word_of_int k :: i32) :: u8) = word_of_int k"
  by (rule bit_word_eqI) (auto simp add: bit_simps)

lemma uint_of_int_and_255: "uint (word_of_int (k AND 0xFF) :: u8) = k AND 0xFF"
proof -
  have "(0xFF :: int) = mask 8" by (simp add: mask_eq_exp_minus_1)
  then have "k AND 0xFF = take_bit 8 k" by (simp add: take_bit_eq_mask)
  then show ?thesis by (simp add: uint_word_of_int_eq)
qed

lemma mulaw_sample_spec:
  assumes "sint x \<noteq> - 32768"
  shows "uint (mulaw_sample x) = spec_encode (sint x)"
proof -
  define B where "B = min \<bar>sint x\<bar> 32635 + 132"
  define E where "E = spec_exponent B"
  define S :: int where "S = (if sint x < 0 then 1 else 0)"
  have B: "sint (biased_magnitude x) = B"
    using assms by (simp add: sint_biased_magnitude sint_np_abs_i16 B_def)
  have le: "B \<le> 32767" by (simp add: B_def)
  have e: "exponent_of (biased_magnitude x) = of_nat E"
    using exponent_of_spec [of "biased_magnitude x"] le by (simp add: B E_def)
  have n: "unat (of_nat E + 3 :: i32) = E + 3"
    unfolding E_def by (rule unat_exponent_plus_3) (rule spec_exponent_le, rule le)
  have s: "(of_bool (sint x < 0) :: i32) = word_of_int S"
    by (simp add: S_def)
  have inner:
    "(NOT (push_bit 7 (word_of_int S) OR push_bit 4 (of_nat E)
           OR (signed_drop_bit (E + 3) (biased_magnitude x) AND 0x0F)) AND 0xFF :: i32)
     = word_of_int (NOT (push_bit 7 S OR push_bit 4 (int E) OR (drop_bit (E + 3) B AND 0x0F))
                    AND 0xFF)"
    by (simp add: signed_drop_bit_of_int B of_int_and_eq of_int_or_eq of_int_not_eq
        of_int_push_bit)
  have "mulaw_sample x
        = word_of_int (NOT (push_bit 7 S OR push_bit 4 (int E) OR (drop_bit (E + 3) B AND 0x0F))
                       AND 0xFF)"
    unfolding mulaw_sample_def Let_def e n s inner by (rule ucast_of_int_i32_u8)
  moreover have "spec_encode (sint x)
        = NOT (push_bit 7 S OR push_bit 4 (int E) OR (drop_bit (E + 3) B AND 0x0F)) AND 0xFF"
    by (simp add: spec_encode_def Let_def S_def E_def B_def)
  ultimately show ?thesis
    by (simp only: uint_of_int_and_255)
qed

lemma linear_to_mulaw_spec:
  assumes "\<forall>x \<in> set (samples bs). sint x \<noteq> - 32768"
  shows "map uint (linear_to_mulaw bs) = map (\<lambda>x. spec_encode (sint x)) (samples bs)"
  using assms by (simp add: linear_to_mulaw_samples mulaw_sample_spec)

subsection \<open>The claims about the codec\<close>

lemma decode_sample_mod_256:
  "\<forall>b. \<bar>sint (decode_sample b)\<bar> = \<bar>spec_decode_int (uint b)\<bar> mod 256"
  by code_simp

text \<open>
  Claim C1 says that decoding an encoded buffer keeps every sample's sign and the order
  of the samples.  The code does not: the little-endian buffer of the samples
  \<open>-5000, 1000, 5000\<close> comes back as \<open>0, 128, 0\<close> (as floats \<open>0, 1/256, 0\<close>).  The
  negative sample decodes to zero, and \<open>1000 < 5000\<close> decodes to \<open>128 > 0\<close>.  The encoder
  alone already breaks the order: the samples \<open>0, 100, 124\<close> get the codes
  \<open>0xFF, 0xF2, 0xFF\<close>.
\<close>

theorem roundtrip_loses_sign_and_order:
  "map sint (samples [0x78, 0xEC, 0xE8, 0x03, 0x88, 0x13]) = [- 5000, 1000, 5000]
   \<and> map sint (mulaw_to_linear_int16 (linear_to_mulaw [0x78, 0xEC, 0xE8, 0x03, 0x88, 0x13]))
       = [0, 128, 0]
   \<and> mulaw_to_linear_float (linear_to_mulaw [0x78, 0xEC, 0xE8, 0x03, 0x88, 0x13])
       = [0, 1 / 256, 0]
   \<and> map sint (samples [0x00, 0x00, 0x64, 0x00, 0x7C, 0x00]) = [0, 100, 124]
   \<and> linear_to_mulaw [0x00, 0x00, 0x64, 0x00, 0x7C, 0x00] = [0xFF, 0xF2, 0xFF]"
  by code_simp

text \<open>
  Claim C2 says that the encoder follows the per-sample algorithm for every signed 16-bit
  sample.  At the sample \<open>-32768\<close> it does not: \<^verbatim>\<open>np.abs\<close> is taken on \<^verbatim>\<open>int16\<close> before
  the widening, the magnitude stays negative, escapes the clip, and the emitted byte is
  \<open>0x7F\<close> where the algorithm on the absolute magnitude gives \<open>0x10\<close>.
\<close>

theorem encode_most_negative_sample:
  "map sint (samples [0x00, 0x80]) = [- 32768]
   \<and> linear_to_mulaw [0x00, 0x80] = [0x7F] \<and> spec_encode (- 32768) = 0x10"
  by code_simp

text \<open>
  Claim C3 says that the decoder computes \<open>((mantissa << 4) + 8) << (exponent + 2)\<close>,
  signed and divided by 32768, for every code byte.  At the byte \<open>0xF0\<close> the code returns
  \<open>224 / 32768\<close> and the algorithm \<open>992 / 32768\<close>.
\<close>

theorem decode_0xF0_wraps:
  "mulaw_to_linear_float [0xF0] = [224 / 32768] \<and> spec_decode 0xF0 = 992 / 32768"
  by code_simp

text \<open>
  Claim C4: the decoder's magnitude is computed in unsigned 8-bit arithmetic, so it is
  the formula's value modulo 256.  For every input buffer every decoded integer sample
  lies in \<open>[-255, 255]\<close> and every normalised sample in \<open>[-255/32768, 255/32768]\<close>; the
  byte \<open>0xF0\<close> decodes to 224 where the formula gives 992.
\<close>

theorem decoded_samples_fit_8_bits:
  "(\<forall>p \<in> set (mulaw_to_linear_int16 bs).
       - 255 \<le> sint p \<and> sint p \<le> 255 \<and>
       (\<exists>b \<in> set bs. \<bar>sint p\<bar> = \<bar>spec_decode_int (uint b)\<bar> mod 256))
   \<and> (\<forall>q \<in> set (mulaw_to_linear_float bs). - 255 / 32768 \<le> q \<and> q \<le> 255 / 32768)
   \<and> map sint (mulaw_to_linear_int16 [0xF0]) = [224]
   \<and> spec_decode_int 0xF0 = 992"
proof (intro conjI ballI)
  fix p assume "p \<in> set (mulaw_to_linear_int16 bs)"
  then obtain b where b: "b \<in> set bs" "p = decode_sample b"
    by (auto simp add: mulaw_to_linear_int16_map)
  show "- 255 \<le> sint p" "sint p \<le> 255"
    using decode_sample_range [of b] b by simp_all
  show "\<exists>b \<in> set bs. \<bar>sint p\<bar> = \<bar>spec_decode_int (uint b)\<bar> mod 256"
    using b decode_sample_mod_256 by blast
next
  fix q assume "q \<in> set (mulaw_to_linear_float bs)"
  then obtain b where q: "q = of_int (sint (decode_sample b)) / 32768"
    by (auto simp add: mulaw_to_linear_float_def mulaw_to_linear_int16_map)
  have "- 255 \<le> sint (decode_sample b)" "sint (decode_sample b) \<le> 255"
    using decode_sample_range [of b] by simp_all
  then have "(- 255 :: rat) \<le> of_int (sint (decode_sample b))"
    "(of_int (sint (decode_sample b)) :: rat) \<le> 255"
    by (metis of_int_le_iff of_int_minus of_int_numeral)+
  then show "- 255 / 32768 \<le> q" "q \<le> 255 / 32768"
    unfolding q by (simp_all add: divide_le_cancel)
next
  show "map sint (mulaw_to_linear_int16 [0xF0]) = [224]" by code_simp
  show "spec_decode_int 0xF0 = 992" by code_simp
qed

theorem decoded_samples_fit_8_bits_witness:
  "224 \<in> set (mulaw_to_linear_int16 [0xF0]) \<and> sint (224 :: i16) \<le> 255
   \<and> 7 / 1024 \<in> set (mulaw_to_linear_float [0xF0]) \<and> (7 / 1024 :: rat) \<le> 255 / 32768"
proof -
  have h1: "224 \<in> set (mulaw_to_linear_int16 [0xF0])" by code_simp
  have h2: "7 / 1024 \<in> set (mulaw_to_linear_float [0xF0])" by code_simp
  from decoded_samples_fit_8_bits [of "[0xF0]"] h1 h2 show ?thesis by blast
qed

text \<open>
  Claim C5: for every input buffer, every byte the encoder emits has, once
  un-complemented, an exponent field (bits 6 to 4) of at most 6; the biased magnitude of
  every sample is at most \<open>32635 + 132 = 32767\<close>, below the threshold \<open>256 << 7\<close> of
  exponent 7.
\<close>

theorem exponent_field_at_most_6:
  "(\<forall>b \<in> set (linear_to_mulaw bs). drop_bit 4 ((b XOR 0xFF) AND 0x70) \<le> 6)
   \<and> (\<forall>x \<in> set (samples bs).
         sint (biased_magnitude x) \<le> 32635 + 132 \<and>
         sint (biased_magnitude x) < sint (push_bit 7 256 :: i32))"
proof (intro conjI ballI)
  fix b assume "b \<in> set (linear_to_mulaw bs)"
  then obtain x where "b = mulaw_sample x"
    unfolding linear_to_mulaw_samples by auto
  then show "drop_bit 4 ((b XOR 0xFF) AND 0x70) \<le> 6"
    by (simp only: exponent_field_le_6)
next
  fix x
  show "sint (biased_magnitude x) \<le> 32635 + 132"
    using biased_magnitude_le [of x] by simp
  then show "sint (biased_magnitude x) < sint (push_bit 7 256 :: i32)"
    by simp
qed

theorem exponent_field_at_most_6_witness:
  "0x90 \<in> set (linear_to_mulaw [0xFF, 0x7F])
   \<and> drop_bit 4 ((0x90 XOR 0xFF) AND 0x70 :: u8) \<le> 6"
proof -
  have h: "0x90 \<in> set (linear_to_mulaw [0xFF, 0x7F])" by code_simp
  from exponent_field_at_most_6 [of "[0xFF, 0x7F]"] h show ?thesis by blast
qed

text \<open>
  Claim C6: the encoder maps the empty buffer to the empty buffer, the decoder maps the
  empty buffer to the empty buffer, and on a buffer of odd length \<open>2k + 1\<close> the encoder
  returns what it returns on the first \<open>2k\<close> bytes.
\<close>

theorem empty_and_odd_length_buffers:
  "linear_to_mulaw [] = [] \<and> mulaw_to_linear_float [] = []
   \<and> (length bs = 2 * k + 1 \<longrightarrow> linear_to_mulaw bs = linear_to_mulaw (take (2 * k) bs))"
  by (simp add: linear_to_mulaw_samples samples_take_even mulaw_to_linear_float_def
      mulaw_to_linear_int16_map)

theorem empty_and_odd_length_buffers_witness:
  "length [0x9C, 0xFF, 0x55 :: u8] = 2 * 1 + 1
   \<and> linear_to_mulaw [0x9C, 0xFF, 0x55] = linear_to_mulaw (take (2 * 1) [0x9C, 0xFF, 0x55])"
  using empty_and_odd_length_buffers [of "[0x9C, 0xFF, 0x55]" 1] by simp

text \<open>
  Claim C7: on every input, a well-formed or malformed buffer or a value that is no
  buffer at all, the encoder returns to its caller and never raises; whenever its body
  raises, the result is the empty buffer and the failure is reported by one printed line.
\<close>

theorem linear_to_mulaw_never_raises:
  "(\<exists>out printed. linear_to_mulaw_py v = Inr (out, printed))
   \<and> (\<forall>e. linear_to_mulaw_try v = Inl e \<longrightarrow>
          linear_to_mulaw_py v = Inr ([], [Encode_error e]))"
  by (cases "linear_to_mulaw_try v") (simp_all add: linear_to_mulaw_py_def)

theorem linear_to_mulaw_never_raises_witness:
  "linear_to_mulaw_try PyNone = Inl TypeError
   \<and> linear_to_mulaw_py PyNone = Inr ([], [Encode_error TypeError])"
proof -
  have h: "linear_to_mulaw_try PyNone = Inl TypeError"
    by (simp add: linear_to_mulaw_try_def)
  from linear_to_mulaw_never_raises [of PyNone] h show ?thesis by blast
qed

section \<open>Properties of Base64\<close>

lemma index_of_nth:
  "distinct xs \<Longrightarrow> i < length xs \<Longrightarrow> index_of xs (xs ! i) = Some i"
proof (induction xs arbitrary: i)
  case Nil
  then show ?case by simp
next
  case (Cons y ys)
  show ?case
  proof (cases i)
    case 0
    then show ?thesis by simp
  next
    case (Suc j)
    with Cons.prems have "ys ! j \<noteq> y" "index_of ys (ys ! j) = Some j"
      using Cons.IH [of j] by auto
    with Suc show ?thesis by simp
  qed
qed

lemma distinct_b64_alphabet: "distinct b64_alphabet"
  by (simp add: b64_alphabet_def)

lemma length_b64_alphabet: "length b64_alphabet = 64"
  by (simp add: b64_alphabet_def)

lemma pad_not_in_alphabet: "CHR ''='' \<notin> set b64_alphabet"
  by (simp add: b64_alphabet_def)

lemma ascii_b64_alphabet: "\<forall>c \<in> set b64_alphabet. (of_char c :: nat) < 128"
  by (simp add: b64_alphabet_def)

lemma sextet_mask: "v AND 63 = v \<Longrightarrow> sextet v"
proof -
  assume "v AND 63 = v"
  then have "v = take_bit 6 v"
    by (simp add: take_bit_eq_mask mask_eq_exp_minus_1)
  then have "unat v = take_bit 6 (unat v)"
    by (metis unsigned_take_bit_eq)
  then have "unat v < 2 ^ 6"
    by (metis take_bit_nat_less_exp)
  then show ?thesis by (simp add: sextet_def)
qed

lemma mask63: "(63 :: u8) = mask 6" "(3 :: u8) = mask 2" "(15 :: u8) = mask 4"
  by (simp_all add: mask_eq_exp_minus_1)

lemma bit_u8_less: "bit (w :: u8) n \<Longrightarrow> n < 8"
  using bit_imp_le_length [of w n] by simp

lemma sextets:
  fixes a b c :: u8
  shows "sextet (drop_bit 2 a)" "sextet (push_bit 4 (a AND 3))"
    "sextet (push_bit 4 (a AND 3) OR drop_bit 4 b)" "sextet (push_bit 2 (b AND 15))"
    "sextet (push_bit 2 (b AND 15) OR drop_bit 6 c)" "sextet (c AND 63)"
  by (rule sextet_mask, unfold mask63, rule bit_word_eqI,
      auto simp add: bit_simps dest: bit_u8_less)+

lemma b64_value_char: "sextet v \<Longrightarrow> b64_value (b64_char v) = Some v"
  by (simp add: b64_value_def b64_char_def sextet_def index_of_nth distinct_b64_alphabet
      length_b64_alphabet)

lemma b64_char_in_alphabet: "sextet v \<Longrightarrow> b64_char v \<in> set b64_alphabet"
  by (simp add: b64_char_def sextet_def length_b64_alphabet)

lemma b64_char_not_pad: "sextet v \<Longrightarrow> b64_char v \<noteq> CHR ''=''"
  using b64_char_in_alphabet pad_not_in_alphabet by metis

lemma Suc_Suc_diff_2: "2 \<le> n \<Longrightarrow> Suc (Suc (n - 2)) = n"
  by arith

lemma reassemble_a:
  fixes a b :: u8
  shows "push_bit 2 (drop_bit 2 a) OR drop_bit 4 (push_bit 4 (a AND 3) OR drop_bit 4 b) = a"
  unfolding mask63
  apply (rule bit_word_eqI)
  subgoal for n
    apply (cases "2 \<le> n")
     apply (auto simp add: bit_simps not_le Suc_Suc_diff_2 dest: bit_u8_less)
    done
  done

lemma reassemble_a1:
  fixes a :: u8
  shows "push_bit 2 (drop_bit 2 a) OR drop_bit 4 (push_bit 4 (a AND 3)) = a"
  unfolding mask63
  apply (rule bit_word_eqI)
  subgoal for n
    apply (cases "2 \<le> n")
     apply (auto simp add: bit_simps not_le Suc_Suc_diff_2 dest: bit_u8_less)
    done
  done

lemma reassemble_b:
  fixes a b c :: u8
  shows "push_bit 4 ((push_bit 4 (a AND 3) OR drop_bit 4 b) AND 0x0F)
       OR drop_bit 2 (push_bit 2 (b AND 15) OR drop_bit 6 c) = b"
  unfolding mask63
  apply (rule bit_word_eqI)
  subgoal for n
    apply (cases "4 \<le> n")
     apply (auto simp add: bit_simps not_le dest: bit_u8_less)
    done
  done

lemma reassemble_b1:
  fixes a b :: u8
  shows "push_bit 4 ((push_bit 4 (a AND 3) OR drop_bit 4 b) AND 0x0F)
       OR drop_bit 2 (push_bit 2 (b AND 15)) = b"
  unfolding mask63
  apply (rule bit_word_eqI)
  subgoal for n
    apply (cases "4 \<le> n")
     apply (auto simp add: bit_simps not_le dest: bit_u8_less)
    done
  done

lemma reassemble_c:
  fixes b c :: u8
  shows "push_bit 6 ((push_bit 2 (b AND 15) OR drop_bit 6 c) AND 0x03) OR (c AND 63) = c"
  unfolding mask63
  apply (rule bit_word_eqI)
  subgoal for n
    apply (cases "6 \<le> n")
     apply (auto simp add: bit_simps not_le dest: bit_u8_less)
    done
  done


lemma a2b_step:
  assumes "sextet v"
  shows "a2b_loop (b64_char v # cs) 0 l p out = a2b_loop cs 1 v 0 out"
    and "a2b_loop (b64_char v # cs) 1 l p out =
           a2b_loop cs 2 (v AND 0x0F) 0 (out @ [push_bit 2 l OR drop_bit 4 v])"
    and "a2b_loop (b64_char v # cs) 2 l p out =
           a2b_loop cs 3 (v AND 0x03) 0 (out @ [push_bit 4 l OR drop_bit 2 v])"
    and "a2b_loop (b64_char v # cs) 3 l p out =
           a2b_loop cs 0 0 0 (out @ [push_bit 6 l OR v])"
  using assms by (simp_all add: b64_value_char b64_char_not_pad)

lemma a2b_pad:
  "a2b_loop ''=='' 2 l 0 out = Inr out" "a2b_loop ''='' 3 l 0 out = Inr out"
  by simp_all

lemma a2b_loop_b64encode:
  "a2b_loop (b64encode bs) 0 0 0 out = Inr (out @ bs)"
proof (induction bs arbitrary: out rule: b64encode.induct)
  case 1
  then show ?case by simp
next
  case (2 a)
  show ?case
    by (simp only: b64encode.simps a2b_step sextets a2b_pad reassemble_a1)
next
  case (3 a b)
  show ?case
    by (simp only: b64encode.simps a2b_step sextets a2b_pad reassemble_a reassemble_b1
        append_Cons append_Nil append_assoc)
next
  case (4 a b c bs)
  show ?case
    by (simp only: b64encode.simps a2b_step sextets "4.IH" reassemble_a reassemble_b
        reassemble_c append_Cons append_Nil append_assoc)
qed

lemma a2b_base64_b64encode: "a2b_base64 (b64encode bs) = Inr bs"
  by (simp add: a2b_base64_def a2b_loop_b64encode)

lemma ascii_b64_char: "sextet v \<Longrightarrow> (of_char (b64_char v) :: nat) < 128"
  using ascii_b64_alphabet b64_char_in_alphabet by blast

lemma ascii_pad: "(of_char CHR ''='' :: nat) < 128"
  by simp

lemma ascii_b64encode: "\<forall>c \<in> set (b64encode bs). (of_char c :: nat) < 128"
  by (induction bs rule: b64encode.induct)
    (simp_all only: b64encode.simps list.set ball_simps ball_Un set_append ascii_b64_char
      sextets ascii_pad simp_thms)

lemma b64decode_b64encode: "b64decode (JStr (b64encode bs)) = Inr bs"
  using ascii_b64encode [of bs] by (auto simp add: a2b_base64_b64encode not_le)

lemma b64encode_eq_Nil: "b64encode bs = [] \<longleftrightarrow> bs = []"
  by (cases bs rule: b64encode.cases) simp_all

section \<open>Properties of the envelopes and the receive loops\<close>

lemma chunks_conform:
  "\<forall>chunk \<in> set (chunks n audio). conforms (fake_call_media sid chunk)"
  by (simp add: conforms_def fake_call_media_def a2b_base64_b64encode)

lemma chunks_nonempty: "\<forall>chunk \<in> set (chunks n audio). chunk \<noteq> []"
proof (induction n audio rule: chunks.induct)
  case (1 n audio)
  show ?case
  proof (cases "n = 0 \<or> audio = []")
    case True
    then show ?thesis by (subst chunks.simps) simp
  next
    case False
    with 1 show ?thesis by (subst chunks.simps) auto
  qed
qed

text \<open>
  Claim C10, amended.  Every envelope that fake\_call.py sends (the start envelope, one
  media envelope per chunk, the stop envelope) conforms to the wire schema, and the
  payload of a media envelope is the Base64 text of the chunk; the start envelope of
  test\_flow.py and the media and stop envelopes of test\_ai.py conform as well.  The
  start object of test\_ai.py carries \<open>callSid\<close>, \<open>streamSid\<close> and a \<open>customParameters\<close>
  map, but neither \<open>from\<close> nor \<open>to\<close>.
\<close>

theorem envelopes_conform:
  "(\<forall>f \<in> set (fake_call_sent now utterances). frame_conforms f)
   \<and> field (fake_call_media sid chunk) ''media''
       = Some (JObj [(''payload'', JStr (b64encode chunk))])
   \<and> conforms test_flow_start
   \<and> conforms (test_ai_media t3 i millis chunk)
   \<and> conforms (test_ai_stop t2 t3)
   \<and> (case field (test_ai_start t1 t2 t3) ''start'' of
         None \<Rightarrow> False
       | Some s \<Rightarrow> is_string (field s ''callSid'') \<and> is_string (field s ''streamSid'') \<and>
                   is_string_keyed_map (field s ''customParameters'') \<and>
                   field s ''from'' = None \<and> field s ''to'' = None)"
proof (intro conjI)
  show "\<forall>f \<in> set (fake_call_sent now utterances). frame_conforms f"
    unfolding fake_call_sent_def
    by (auto simp add: json_dumps_def conforms_def fake_call_start_def fake_call_stop_def
        fake_call_media_def a2b_base64_b64encode)
  show "field (fake_call_media sid chunk) ''media''
       = Some (JObj [(''payload'', JStr (b64encode chunk))])"
    by (simp add: fake_call_media_def)
  show "conforms test_flow_start"
    by (simp add: conforms_def test_flow_start_def)
  show "conforms (test_ai_media t3 i millis chunk)"
    by (simp add: conforms_def test_ai_media_def a2b_base64_b64encode)
  show "conforms (test_ai_stop t2 t3)"
    by (simp add: conforms_def test_ai_stop_def)
  show "case field (test_ai_start t1 t2 t3) ''start'' of
         None \<Rightarrow> False
       | Some s \<Rightarrow> is_string (field s ''callSid'') \<and> is_string (field s ''streamSid'') \<and>
                   is_string_keyed_map (field s ''customParameters'') \<and>
                   field s ''from'' = None \<and> field s ''to'' = None"
    by (simp add: test_ai_start_def)
qed

theorem envelopes_conform_witness:
  "json_dumps (fake_call_stop (CALL_SID 0)) \<in> set (fake_call_sent 0 [[0x9C, 0xFF]])
   \<and> frame_conforms (json_dumps (fake_call_stop (CALL_SID 0)))"
proof -
  have h: "json_dumps (fake_call_stop (CALL_SID 0)) \<in> set (fake_call_sent 0 [[0x9C, 0xFF]])"
    by (simp add: fake_call_sent_def)
  from envelopes_conform [of 0 "[[0x9C, 0xFF]]"] h show ?thesis by blast
qed

text \<open>
  Claim C10 as stated fails: the start envelope of test\_ai.py does not conform, its
  start object has no \<open>from\<close> and no \<open>to\<close> field.
\<close>

theorem test_ai_start_lacks_from_and_to:
  "\<not> conforms (test_ai_start 1700000000 1700000000 1700000000)"
  by (simp add: conforms_def test_ai_start_def)

text \<open>
  Claim C9 as stated fails: two stop envelopes with different stream identifiers are
  serialised to the same text, so no deserialisation returns the identifier; and a
  media envelope with an empty payload is received as a message without audio.
\<close>

theorem stop_envelope_forgets_stream_id:
  "fake_call_serialize 1700000000 (Stop ''SIM_STREAM_001'')
     = fake_call_serialize 1700000000 (Stop ''ANOTHER_STREAM'')
   \<and> Stop ''SIM_STREAM_001'' \<noteq> Stop ''ANOTHER_STREAM''
   \<and> test_flow_receive (fake_call_serialize 1700000000 (Media ''SIM_STREAM_001'' []))
       = Inr None"
  by (simp add: test_flow_receive_def json_dumps_def fake_call_media_def py_get_def)

text \<open>
  Claim C9, amended.  Parsing a serialised media envelope and Base64-decoding its payload,
  as the receiving loop does, returns exactly the payload bytes when the payload is not
  empty, and no audio when it is empty; the parsed media envelope carries the kind and
  the stream identifier, the parsed start envelope the kind and the stream identifier
  inside its start object, and the parsed stop envelope the kind and the call
  identifier only: it is the same for every stream identifier.
\<close>

theorem envelope_roundtrip:
  "(chunk \<noteq> [] \<longrightarrow>
      test_flow_receive (fake_call_serialize now (Media sid chunk)) = Inr (Some chunk))
   \<and> test_flow_receive (fake_call_serialize now (Media sid [])) = Inr None
   \<and> (\<exists>data. json_loads (fake_call_serialize now (Media sid chunk)) = Inr data \<and>
         field data ''event'' = Some (JStr ''media'') \<and>
         field data ''streamSid'' = Some (JStr sid))
   \<and> (\<exists>data s. json_loads (fake_call_serialize now (Start sid)) = Inr data \<and>
         field data ''event'' = Some (JStr ''start'') \<and>
         field data ''start'' = Some s \<and> field s ''streamSid'' = Some (JStr sid))
   \<and> (\<exists>data. json_loads (fake_call_serialize now (Stop sid)) = Inr data \<and>
         field data ''event'' = Some (JStr ''stop'') \<and>
         field data ''stop'' = Some (JObj [(''callSid'', JStr (CALL_SID now))]))
   \<and> fake_call_serialize now (Stop sid) = fake_call_serialize now (Stop sid')"
  by (simp add: test_flow_receive_def json_dumps_def fake_call_media_def fake_call_start_def
      fake_call_stop_def py_get_def b64decode_b64encode b64encode_eq_Nil
      del: b64decode.simps)

theorem envelope_roundtrip_witness:
  "[0x7F, 0xFF, 0x37] \<noteq> ([] :: u8 list)
   \<and> test_flow_receive (fake_call_serialize 0 (Media ''SIM_STREAM_001'' [0x7F, 0xFF, 0x37]))
       = Inr (Some [0x7F, 0xFF, 0x37])"
  using envelope_roundtrip [of "[0x7F, 0xFF, 0x37]" 0 "''SIM_STREAM_001''"] by simp

text \<open>
  Claim C8 as stated fails: after an unparsable message the listener prints one line and
  returns, and the well-formed media message behind it is not counted, although the
  same message alone is; and a message without the event field prints nothing.
\<close>

theorem listener_stops_at_unparsable_message:
  "listen [Not_json ''{'', json_dumps (fake_call_media STREAM_SID [0x7F, 0xFF, 0x37])]
     = (0, [Listener_error JSONDecodeError])
   \<and> listen [json_dumps (fake_call_media STREAM_SID [0x7F, 0xFF, 0x37])]
     = (1, [AI_response 1 4, Listener_closed])
   \<and> listen [Json_text (JObj [(''streamSid'', JStr ''SIM_STREAM_001'')])]
     = (0, [Listener_closed])"
  by (simp add: listen_def json_dumps_def fake_call_media_def py_get_def b64_char_def
      b64_alphabet_def)

text \<open>
  Claim C8, amended.  A message that parses to an object without an \<open>event\<close> field is
  skipped without any signal and the listener goes on with the messages behind it, as if
  it had not arrived.  An unparsable message ends the loop: the listener prints one error line and
  returns with the counter unchanged, whatever follows on the channel.
\<close>

theorem listen_on_malformed_envelopes:
  "(map_of kvs ''event'' = None \<longrightarrow>
      listen_loop (Json_text (JObj kvs) # rest) n out = listen_loop rest n out
      \<and> listen (Json_text (JObj kvs) # rest) = listen rest)
   \<and> listen_loop (Not_json s # rest) n out = (JSONDecodeError, n, out)
   \<and> listen (Not_json s # rest) = (0, [Listener_error JSONDecodeError])"
  by (simp add: listen_def py_get_def)

theorem listen_on_malformed_envelopes_witness:
  "map_of [(''streamSid'', JStr ''SIM_STREAM_001'')] ''event'' = None
   \<and> listen (Json_text (JObj [(''streamSid'', JStr ''SIM_STREAM_001'')])
        # [json_dumps (fake_call_media STREAM_SID [0x7F, 0xFF, 0x37])])
     = listen [json_dumps (fake_call_media STREAM_SID [0x7F, 0xFF, 0x37])]"
  using listen_on_malformed_envelopes [of "[(''streamSid'', JStr ''SIM_STREAM_001'')]"
      "[json_dumps (fake_call_media STREAM_SID [0x7F, 0xFF, 0x37])]"]
  by simp

end
